theory Spec2Isabelle
  imports Complex_Main "HOL-Library.Log_Nat"
begin

section \<open>Single-precision rounding\<close>

text \<open>
  The notebook stores the atoms table as a numpy array of dtype \<open>float32\<close>
  (\<open>np.random.rand(size,6).astype(np.float32)\<close>), so every value written into it and
  every arithmetic result on it is rounded to the nearest binary32 number, ties to even.
  A finite binary32 number is a rational \<open>m * 2 ^ e\<close> with \<open>\<bar>m\<bar> < 2 ^ 24\<close> and
  \<open>- 149 \<le> e\<close>; the cells are modelled as such rationals and the rounding is written
  out. Overflow to infinity starts at \<open>2 ^ 128\<close>; no value of this program comes near it
  (identifiers are 64-bit integers, coordinates are bounded by 360), so it is left out.
\<close>

definition ilog2 :: "rat \<Rightarrow> int" where
  \<comment> \<open>the binary exponent of a positive rational: \<open>2 ^ ilog2 x \<le> x < 2 ^ (ilog2 x + 1)\<close>\<close>
  "ilog2 x = (case quotient_of x of (n, d) \<Rightarrow>
     let k = bitlen n - bitlen d in if 2 powi k \<le> x then k else k - 1)"

definition round_half_even :: "rat \<Rightarrow> int" where
  "round_half_even q = (let f = \<lfloor>q\<rfloor>; r = q - of_int f in
     if r < 1 / 2 then f else if 1 / 2 < r then f + 1 else if even f then f else f + 1)"

definition float32 :: "rat \<Rightarrow> rat" where
  \<comment> \<open>24 significant bits; below \<open>2 ^ (- 126)\<close> the spacing stays \<open>2 ^ (- 149)\<close> (subnormals)\<close>
  "float32 x = (if x = 0 then 0 else
     let e = max (ilog2 \<bar>x\<bar>) (- 126) - 23
     in sgn x * of_int (round_half_even (\<bar>x\<bar> / 2 powi e)) * 2 powi e)"

section \<open>Arrays and data frames\<close>

text \<open>A two-dimensional numpy array is the list of its rows.\<close>

type_synonym 'a ndarray = "'a list list"

definition ones :: "nat \<Rightarrow> nat \<Rightarrow> int ndarray" where
  \<comment> \<open>\<open>np.ones([n,w]).astype(int)\<close>\<close>
  "ones n w = replicate n (replicate w 1)"

definition arange :: "nat \<Rightarrow> int list" where
  "arange n = map int [0..<n]"

definition column :: "nat \<Rightarrow> 'a ndarray \<Rightarrow> 'a list" where
  \<comment> \<open>\<open>a[:,j]\<close>\<close>
  "column j a = map (\<lambda>row. row ! j) a"

definition set_column :: "nat \<Rightarrow> 'a list \<Rightarrow> 'a ndarray \<Rightarrow> 'a ndarray" where
  \<comment> \<open>\<open>a[:,j] = vs\<close>, for \<open>vs\<close> as long as \<open>a\<close>\<close>
  "set_column j vs a = map (\<lambda>(row, v). row[j := v]) (zip a vs)"

definition slice_bound :: "int \<Rightarrow> nat \<Rightarrow> nat" where
  \<comment> \<open>a slice bound is clamped to the axis; a negative one counts from the end\<close>
  "slice_bound k n = (if k < 0 then nat (int n + k) else min (nat k) n)"

definition fill_rows :: "nat \<Rightarrow> nat \<Rightarrow> nat \<Rightarrow> 'a \<Rightarrow> 'a ndarray \<Rightarrow> 'a ndarray" where
  \<comment> \<open>\<open>a[lo:hi,j] = v\<close> with the bounds already clamped\<close>
  "fill_rows lo hi j v a =
     map (\<lambda>i. if lo \<le> i \<and> i < hi then (a ! i)[j := v] else a ! i) [0..<length a]"

type_synonym 'a data_frame = "(string \<times> 'a list) list"

definition DataFrame :: "'a ndarray \<Rightarrow> string list \<Rightarrow> 'a data_frame" where
  \<comment> \<open>\<open>pl.DataFrame(a, schema=names)\<close>: the rows of the array are the rows of the frame,
    column \<open>j\<close> of the array is named \<open>names[j]\<close> (the array has as many columns as names)\<close>
  "DataFrame a schema = map (\<lambda>j. (schema ! j, column j a)) [0..<length schema]"

definition shape :: "'a data_frame \<Rightarrow> nat \<times> nat" where
  \<comment> \<open>\<open>atoms.to_numpy().shape\<close>: rows, columns\<close>
  "shape df = (case df of [] \<Rightarrow> (0, 0) | (_, c) # _ \<Rightarrow> (length c, length df))"

section \<open>The generator cell\<close>

text \<open>
  The cell is a function of the row count (\<open>size\<close> in the notebook, \<open>count\<close> here,
  since \<open>size\<close> is a constant of HOL) and of the draws of \<open>np.random.rand(size,6)\<close>:
  \<open>rand i j\<close> is the double at row \<open>i\<close>, column \<open>j\<close>, which the generator takes from
  the half-open interval from 0 to 1.
\<close>

definition scale :: "rat \<Rightarrow> rat" where
  \<comment> \<open>\<open>atoms*120-60\<close>, one cell\<close>
  "scale v = float32 (float32 (v * 120) - 60)"

definition square_tenth :: "rat \<Rightarrow> rat" where
  \<comment> \<open>\<open>atoms**2/10\<close>, one cell\<close>
  "square_tenth v = float32 (float32 (v ^ 2) / 10)"

definition atoms_array :: "nat \<Rightarrow> (nat \<Rightarrow> nat \<Rightarrow> rat) \<Rightarrow> rat ndarray" where
  "atoms_array count rand =
    (let atoms = map (\<lambda>i. map (\<lambda>j. float32 (rand i j)) [0..<6]) [0..<count];
         atoms = map (map scale) atoms;
         atoms = map (map square_tenth) atoms;
         atoms = set_column 0 (map (\<lambda>k. float32 (of_int (k + 1))) (arange (length atoms))) atoms;
         atoms = fill_rows 0 (length atoms) 1 (float32 1) atoms;
         atoms = fill_rows 0 (slice_bound 100 (length atoms)) 1 (float32 2) atoms;
         atoms = fill_rows (slice_bound (- 100) (length atoms)) (length atoms) 1 (float32 3) atoms;
         atoms = set_column 2 (column 1 atoms) atoms
     in atoms)"

definition generate_atoms :: "nat \<Rightarrow> (nat \<Rightarrow> nat \<Rightarrow> rat) \<Rightarrow> rat data_frame" where
  "generate_atoms count rand =
     DataFrame (atoms_array count rand)
       [''atom-id'', ''atom-type'', ''mol-type'', ''x-coor'', ''y-coor'', ''z-coor'']"

definition bonds :: "nat \<Rightarrow> int ndarray" where
  "bonds count = (let bonds = ones count 4
     in set_column 0 (map (\<lambda>k. k + 1) (arange (length bonds))) bonds)"

definition angles :: "nat \<Rightarrow> int ndarray" where
  "angles count = (let angles = ones count 5
     in set_column 0 (map (\<lambda>k. k + 1) (arange (length angles))) angles)"

definition dihedrals :: "nat \<Rightarrow> int ndarray" where
  \<comment> \<open>the cell sets the identifiers of atoms, bonds and angles only\<close>
  "dihedrals count = ones count 6"

section \<open>The aggregate queries\<close>

text \<open>
  The notebook asks for \<open>atoms.select(['x-coor','y-coor','z-coor']).max()\<close> and
  \<open>.min()\<close>. Both are methods of the data-frame library, whose code is not part of the
  repository, so the two queries follow the specification's description of them.
\<close>

datatype error = ColumnNotFound string

text \<open>
  Modelled from the spec: the selection step of \<open>column_max\<close> and \<open>column_min\<close> (the
  library's \<open>select\<close>, absent from the sources). Every named column must exist, else the
  query fails with a Column-Not-Found error; no column is handed on in that case.
\<close>

fun select :: "'a data_frame \<Rightarrow> string list \<Rightarrow> error + 'a list list" where
  "select df [] = Inr []"
| "select df (n # ns) =
     (case map_of df n of
        None \<Rightarrow> Inl (ColumnNotFound n)
      | Some c \<Rightarrow> (case select df ns of Inl e \<Rightarrow> Inl e | Inr cs \<Rightarrow> Inr (c # cs)))"

text \<open>
  Modelled from the spec: the maximum (respectively minimum) over all rows of one column
  (the library's \<open>max\<close> and \<open>min\<close>, absent from the sources). A column without rows has
  no extremum; the answer is then \<open>None\<close>, the library's null.
\<close>

fun maximum :: "'a::linorder list \<Rightarrow> 'a option" where
  "maximum [] = None"
| "maximum (x # xs) = Some (fold max xs x)"

fun minimum :: "'a::linorder list \<Rightarrow> 'a option" where
  "minimum [] = None"
| "minimum (x # xs) = Some (fold min xs x)"

text \<open>
  Modelled from the spec: \<open>column_max(table, column_names)\<close> and
  \<open>column_min(table, column_names)\<close>, one value per requested column, in the same order.
\<close>

definition column_max :: "'a::linorder data_frame \<Rightarrow> string list \<Rightarrow> error + 'a option list" where
  "column_max df names =
     (case select df names of Inl e \<Rightarrow> Inl e | Inr cs \<Rightarrow> Inr (map maximum cs))"

definition column_min :: "'a::linorder data_frame \<Rightarrow> string list \<Rightarrow> error + 'a option list" where
  "column_min df names =
     (case select df names of Inl e \<Rightarrow> Inl e | Inr cs \<Rightarrow> Inr (map minimum cs))"

section \<open>Sample inputs\<close>

definition zero_draws :: "nat \<Rightarrow> nat \<Rightarrow> rat" where
  "zero_draws i j = 0"

definition tenth_draws :: "nat \<Rightarrow> nat \<Rightarrow> rat" where
  "tenth_draws i j = 1 / 10"

definition sample_frame :: "int data_frame" where
  "sample_frame = [(''a'', [3, 1, 2]), (''b'', [5, 9, 4])]"

section \<open>Closed form of the category writes\<close>

text \<open>Used to describe the rows of the array; the claims are stated without it.\<close>

definition atom_type :: "nat \<Rightarrow> nat \<Rightarrow> rat" where
  \<comment> \<open>the category code the three writes leave in row \<open>i\<close> of \<open>count\<close> rows\<close>
  "atom_type count i = (if slice_bound (- 100) count \<le> i then 3
     else if i < slice_bound 100 count then 2 else 1)"

section \<open>Properties of the rounding\<close>

lemma of_int_bitlen_bounds:
  assumes "0 < n"
  shows "(2::rat) powi (bitlen n - 1) \<le> of_int n" "(of_int n :: rat) < 2 powi bitlen n"
proof -
  from assms have b: "1 \<le> bitlen n"
    by (simp add: bitlen_alt_def)
  have "(2::int) ^ nat (bitlen n - 1) \<le> n" "n < 2 ^ nat (bitlen n)"
    using bitlen_bounds [OF assms] by simp_all
  then have "(of_int ((2::int) ^ nat (bitlen n - 1)) :: rat) \<le> of_int n"
    "(of_int n :: rat) < of_int (2 ^ nat (bitlen n))"
    by (simp_all only: of_int_le_iff of_int_less_iff)
  then show "(2::rat) powi (bitlen n - 1) \<le> of_int n" "(of_int n :: rat) < 2 powi bitlen n"
    using b by (simp_all add: power_int_nonneg_exp)
qed

lemma powi2_less_cancel:
  assumes "(2::rat) powi a < 2 powi b"
  shows "a < b"
proof (rule ccontr)
  assume "\<not> a < b"
  then have "b \<le> a"
    by simp
  then have "(2::rat) powi b \<le> 2 powi a"
    by (intro power_int_increasing) simp_all
  with assms show False
    by simp
qed

lemma ilog2_bounds:
  assumes "0 < x"
  shows "2 powi ilog2 x \<le> x" "x < 2 powi (ilog2 x + 1)"
proof -
  obtain n d where q: "quotient_of x = (n, d)"
    by (cases "quotient_of x")
  then have d: "0 < d" and x: "x = of_int n / of_int d"
    by (simp_all add: quotient_of_denom_pos quotient_of_div)
  from assms x d have n: "0 < n"
    by (simp add: zero_less_divide_iff)
  define k where "k = bitlen n - bitlen d"
  have "x < 2 powi bitlen n / 2 powi (bitlen d - 1)"
    unfolding x using of_int_bitlen_bounds [OF n] of_int_bitlen_bounds [OF d] d n
    by (intro frac_less) simp_all
  also have "\<dots> = 2 powi (k + 1)"
    by (simp add: k_def power_int_diff [symmetric] algebra_simps)
  finally have up: "x < 2 powi (k + 1)" .
  have "2 powi (bitlen n - 1) / 2 powi bitlen d < x"
    unfolding x using of_int_bitlen_bounds [OF n] of_int_bitlen_bounds [OF d] d n
    by (intro frac_less2) simp_all
  moreover have "(2::rat) powi (bitlen n - 1) / 2 powi bitlen d = 2 powi (k - 1)"
    by (simp add: k_def power_int_diff [symmetric] algebra_simps)
  ultimately have lo: "2 powi (k - 1) < x"
    by simp
  have i: "ilog2 x = (if 2 powi k \<le> x then k else k - 1)"
    by (simp add: ilog2_def q k_def Let_def)
  show "2 powi ilog2 x \<le> x"
    using lo by (simp add: i)
  show "x < 2 powi (ilog2 x + 1)"
    using up by (simp add: i)
qed

lemma ilog2_unique:
  assumes "2 powi k \<le> x" "x < 2 powi (k + 1)"
  shows "ilog2 x = k"
proof -
  have "0 < (2::rat) powi k"
    by simp
  with assms have x: "0 < x"
    by linarith
  have "(2::rat) powi k < 2 powi (ilog2 x + 1)"
    using assms(1) ilog2_bounds(2) [OF x] by linarith
  then have "k < ilog2 x + 1"
    by (rule powi2_less_cancel)
  moreover have "(2::rat) powi ilog2 x < 2 powi (k + 1)"
    using assms(2) ilog2_bounds(1) [OF x] by linarith
  then have "ilog2 x < k + 1"
    by (rule powi2_less_cancel)
  ultimately show ?thesis
    by linarith
qed

lemma ilog2_mono:
  assumes "0 < x" "x \<le> y"
  shows "ilog2 x \<le> ilog2 y"
proof -
  from assms have y: "0 < y"
    by linarith
  have "(2::rat) powi ilog2 x < 2 powi (ilog2 y + 1)"
    using ilog2_bounds(1) [OF assms(1)] ilog2_bounds(2) [OF y] assms(2) by linarith
  then have "ilog2 x < ilog2 y + 1"
    by (rule powi2_less_cancel)
  then show ?thesis
    by linarith
qed

lemma round_half_even_of_int: "round_half_even (of_int m) = m"
  by (simp add: round_half_even_def)

lemma round_half_even_mono:
  assumes "p \<le> q"
  shows "round_half_even p \<le> round_half_even q"
proof -
  have f: "\<lfloor>p\<rfloor> \<le> \<lfloor>q\<rfloor>"
    using assms by (rule floor_mono)
  show ?thesis
  proof (cases "\<lfloor>p\<rfloor> = \<lfloor>q\<rfloor>")
    case True
    with assms show ?thesis
      by (auto simp add: round_half_even_def Let_def)
  next
    case False
    with f have "\<lfloor>p\<rfloor> + 1 \<le> \<lfloor>q\<rfloor>"
      by linarith
    moreover have "round_half_even p \<le> \<lfloor>p\<rfloor> + 1"
      by (simp add: round_half_even_def Let_def)
    moreover have "\<lfloor>q\<rfloor> \<le> round_half_even q"
      by (simp add: round_half_even_def Let_def)
    ultimately show ?thesis
      by linarith
  qed
qed


lemma float32_minus: "float32 (- x) = - float32 x"
  by (simp add: float32_def Let_def)

lemma float32_pos:
  assumes "0 < x"
  shows "float32 x = of_int (round_half_even (x / 2 powi (max (ilog2 x) (- 126) - 23))) *
    2 powi (max (ilog2 x) (- 126) - 23)"
  using assms by (simp add: float32_def Let_def)

lemma grid_quotient:
  assumes "e \<le> j"
  shows "of_int m * 2 powi j / 2 powi e = (of_int (m * 2 ^ nat (j - e)) :: rat)"
proof -
  have "(2::rat) powi j / 2 powi e = 2 powi (j - e)"
    by (simp add: power_int_diff)
  also have "\<dots> = 2 ^ nat (j - e)"
    using assms by (simp add: power_int_nonneg_exp)
  finally have "of_int m * ((2::rat) powi j / 2 powi e) = of_int m * 2 ^ nat (j - e)"
    by (simp only:)
  then show ?thesis
    by (simp only: times_divide_eq_right of_int_mult of_int_power of_int_numeral)
qed

lemma float32_le_grid:
  assumes "0 < x" "x \<le> of_int m * 2 powi j" "max (ilog2 x) (- 126) - 23 \<le> j"
  shows "float32 x \<le> of_int m * 2 powi j"
proof -
  define e where "e = max (ilog2 x) (- 126) - 23"
  have "x / 2 powi e \<le> of_int m * 2 powi j / 2 powi e"
    using assms(2) by (simp add: divide_right_mono)
  then have "round_half_even (x / 2 powi e) \<le> round_half_even (of_int (m * 2 ^ nat (j - e)))"
    using assms(3) by (simp only: grid_quotient e_def round_half_even_mono)
  then have "round_half_even (x / 2 powi e) \<le> m * 2 ^ nat (j - e)"
    by (simp only: round_half_even_of_int)
  then have "(of_int (round_half_even (x / 2 powi e)) :: rat) \<le> of_int (m * 2 ^ nat (j - e))"
    by (simp only: of_int_le_iff)
  then have "of_int (round_half_even (x / 2 powi e)) * 2 powi e
      \<le> (of_int (m * 2 ^ nat (j - e)) :: rat) * 2 powi e"
    by (simp add: mult_right_mono)
  also have "\<dots> = of_int m * 2 powi j / 2 powi e * 2 powi e"
    using assms(3) by (simp only: grid_quotient e_def)
  also have "\<dots> = of_int m * 2 powi j"
    by simp
  finally show ?thesis
    using assms(1) by (simp only: float32_pos e_def)
qed

lemma float32_ge_grid:
  assumes "0 < x" "of_int m * 2 powi j \<le> x" "max (ilog2 x) (- 126) - 23 \<le> j"
  shows "of_int m * 2 powi j \<le> float32 x"
proof -
  define e where "e = max (ilog2 x) (- 126) - 23"
  have "of_int m * 2 powi j / 2 powi e \<le> x / 2 powi e"
    using assms(2) by (simp add: divide_right_mono)
  then have "round_half_even (of_int (m * 2 ^ nat (j - e))) \<le> round_half_even (x / 2 powi e)"
    using assms(3) by (simp only: grid_quotient e_def round_half_even_mono)
  then have "m * 2 ^ nat (j - e) \<le> round_half_even (x / 2 powi e)"
    by (simp only: round_half_even_of_int)
  then have "(of_int (m * 2 ^ nat (j - e)) :: rat) \<le> of_int (round_half_even (x / 2 powi e))"
    by (simp only: of_int_le_iff)
  then have r: "(of_int (m * 2 ^ nat (j - e)) :: rat) * 2 powi e
      \<le> of_int (round_half_even (x / 2 powi e)) * 2 powi e"
    by (simp add: mult_right_mono)
  have "(of_int m * 2 powi j :: rat) = of_int m * 2 powi j / 2 powi e * 2 powi e"
    by simp
  also have "\<dots> = (of_int (m * 2 ^ nat (j - e)) :: rat) * 2 powi e"
    using assms(3) by (simp only: grid_quotient e_def)
  also note r
  finally show ?thesis
    using assms(1) by (simp only: float32_pos e_def)
qed

lemma float32_pos_mono:
  assumes "0 < x" "x \<le> y"
  shows "float32 x \<le> float32 y"
proof -
  from assms have y: "0 < y"
    by linarith
  define ex where "ex = max (ilog2 x) (- 126) - 23"
  define ey where "ey = max (ilog2 y) (- 126) - 23"
  have le: "ex \<le> ey"
    using ilog2_mono [OF assms] by (simp add: ex_def ey_def)
  show ?thesis
  proof (cases "ex = ey")
    case True
    have "x / 2 powi ey \<le> y / 2 powi ey"
      using assms(2) by (simp add: divide_right_mono)
    then have "round_half_even (x / 2 powi ey) \<le> round_half_even (y / 2 powi ey)"
      by (rule round_half_even_mono)
    then have "(of_int (round_half_even (x / 2 powi ey)) :: rat) * 2 powi ey
        \<le> of_int (round_half_even (y / 2 powi ey)) * 2 powi ey"
      by (simp add: mult_right_mono)
    then show ?thesis
      using assms(1) y True by (simp add: float32_pos ex_def ey_def)
  next
    case False
    with le have lt: "ex < ey"
      by simp
    then have L: "ey = ilog2 y - 23" "ilog2 x < ilog2 y"
      by (simp_all add: ex_def ey_def max_def split: if_splits)
    have "x < 2 powi (ilog2 x + 1)"
      using assms(1) by (rule ilog2_bounds)
    also have "\<dots> \<le> 2 powi ilog2 y"
      using L(2) by (intro power_int_increasing) simp_all
    finally have "x \<le> of_int 1 * 2 powi ilog2 y"
      by simp
    moreover have "max (ilog2 x) (- 126) - 23 \<le> ilog2 y"
      using lt L(1) unfolding ex_def by linarith
    ultimately have "float32 x \<le> of_int 1 * 2 powi ilog2 y"
      using assms(1) by (intro float32_le_grid)
    moreover have "of_int 1 * 2 powi ilog2 y \<le> y"
      using ilog2_bounds(1) [OF y] by simp
    then have "of_int 1 * 2 powi ilog2 y \<le> float32 y"
      using y L(1) by (intro float32_ge_grid) (simp_all add: ey_def)
    ultimately show ?thesis
      by linarith
  qed
qed

lemma float32_0: "float32 0 = 0"
  by (simp add: float32_def)

lemma float32_nonneg:
  assumes "0 \<le> x"
  shows "0 \<le> float32 x"
proof (cases "x = 0")
  case True
  then show ?thesis
    by (simp add: float32_0)
next
  case False
  with assms have "0 < x"
    by simp
  moreover have "0 \<le> round_half_even (x / 2 powi (max (ilog2 x) (- 126) - 23))"
    using round_half_even_mono [of 0 "x / 2 powi (max (ilog2 x) (- 126) - 23)"] assms
    by (simp add: round_half_even_def)
  ultimately show ?thesis
    by (simp add: float32_pos)
qed

lemma float32_mono:
  assumes "x \<le> y"
  shows "float32 x \<le> float32 y"
proof -
  consider "0 < x" | "x \<le> 0" "0 \<le> y" | "y < 0"
    by linarith
  then show ?thesis
  proof cases
    case 1
    then show ?thesis
      using assms by (rule float32_pos_mono)
  next
    case 2
    have "float32 x \<le> 0"
      using float32_nonneg [of "- x"] 2(1) by (simp add: float32_minus)
    moreover have "0 \<le> float32 y"
      using 2(2) by (rule float32_nonneg)
    ultimately show ?thesis
      by linarith
  next
    case 3
    then have "float32 (- y) \<le> float32 (- x)"
      using assms by (intro float32_pos_mono) simp_all
    then show ?thesis
      by (simp add: float32_minus)
  qed
qed

lemma float32_of_nat:
  assumes "n \<le> 2 ^ 24"
  shows "float32 (of_nat n) = of_nat n"
proof -
  consider "n = 0" | "n = 2 ^ 24" | "0 < n" "n < 2 ^ 24"
    using assms by linarith
  then show ?thesis
  proof cases
    case 1
    then show ?thesis
      by (simp add: float32_0)
  next
    case 2
    have "float32 16777216 = 16777216"
      by code_simp
    with 2 show ?thesis
      by simp
  next
    case 3
    define x :: rat where "x = of_nat n"
    have x: "0 < x" "x = of_int (int n) * 2 powi 0"
      using 3(1) by (simp_all add: x_def)
    have "(of_nat n :: rat) < of_nat (2 ^ 24)"
      using 3(2) by (simp only: of_nat_less_iff)
    then have "x < 2 powi 24"
      by (simp add: x_def)
    then have "(2::rat) powi ilog2 x < 2 powi 24"
      using ilog2_bounds(1) [OF x(1)] by linarith
    then have "ilog2 x < 24"
      by (rule powi2_less_cancel)
    then have e: "max (ilog2 x) (- 126) - 23 \<le> 0"
      by simp
    have "float32 x \<le> of_int (int n) * 2 powi 0"
      using x e by (intro float32_le_grid) simp_all
    moreover have "of_int (int n) * 2 powi 0 \<le> float32 x"
      using x e by (intro float32_ge_grid) simp_all
    ultimately show ?thesis
      using x(2) by (simp add: x_def)
  qed
qed

section \<open>Rows of the atoms array\<close>

lemma float32_1: "float32 1 = 1"
  by code_simp

lemma float32_2: "float32 2 = 2"
  by code_simp

lemma float32_3: "float32 3 = 3"
  by code_simp

lemma length_set_column: "length vs = length a \<Longrightarrow> length (set_column j vs a) = length a"
  by (simp add: set_column_def)

lemma nth_set_column:
  "length vs = length a \<Longrightarrow> i < length a \<Longrightarrow> set_column j vs a ! i = (a ! i)[j := vs ! i]"
  by (simp add: set_column_def)

lemma length_fill_rows: "length (fill_rows lo hi j v a) = length a"
  by (simp add: fill_rows_def)

lemma nth_fill_rows:
  "i < length a \<Longrightarrow>
   fill_rows lo hi j v a ! i = (if lo \<le> i \<and> i < hi then (a ! i)[j := v] else a ! i)"
  by (simp add: fill_rows_def)

lemma length_column: "length (column j a) = length a"
  by (simp add: column_def)

lemma nth_column: "i < length a \<Longrightarrow> column j a ! i = a ! i ! j"
  by (simp add: column_def)

lemma length_atoms_array: "length (atoms_array count rand) = count"
  by (simp add: atoms_array_def Let_def length_set_column length_fill_rows length_column
      arange_def)

lemma six: "[0..<6] = [0, 1, 2, 3, 4, 5]"
  by (simp add: upt_rec)

lemma atoms_array_row:
  assumes "i < count"
  shows "atoms_array count rand ! i =
    [float32 (of_nat (i + 1)), atom_type count i, atom_type count i,
     square_tenth (scale (float32 (rand i 3))),
     square_tenth (scale (float32 (rand i 4))),
     square_tenth (scale (float32 (rand i 5)))]"
  using assms
  by (simp add: atoms_array_def Let_def length_set_column length_fill_rows length_column
      nth_set_column nth_fill_rows nth_column arange_def six atom_type_def
      float32_1 float32_2 float32_3 slice_bound_def add.commute)

lemma generate_atoms_lookup:
  "map_of (generate_atoms count rand) ''atom-id'' = Some (column 0 (atoms_array count rand))"
  "map_of (generate_atoms count rand) ''atom-type'' = Some (column 1 (atoms_array count rand))"
  "map_of (generate_atoms count rand) ''mol-type'' = Some (column 2 (atoms_array count rand))"
  "map_of (generate_atoms count rand) ''x-coor'' = Some (column 3 (atoms_array count rand))"
  "map_of (generate_atoms count rand) ''y-coor'' = Some (column 4 (atoms_array count rand))"
  "map_of (generate_atoms count rand) ''z-coor'' = Some (column 5 (atoms_array count rand))"
  by (simp_all add: generate_atoms_def DataFrame_def eval_nat_numeral)

lemma column_atoms_array:
  assumes "j < 6"
  shows "column j (atoms_array count rand) =
    map (\<lambda>i. [float32 (of_nat (i + 1)), atom_type count i, atom_type count i,
       square_tenth (scale (float32 (rand i 3))),
       square_tenth (scale (float32 (rand i 4))),
       square_tenth (scale (float32 (rand i 5)))] ! j) [0..<count]"
  by (rule nth_equalityI)
    (simp_all add: length_column length_atoms_array nth_column atoms_array_row)

lemma atom_id_column:
  "column 0 (atoms_array count rand) = map (\<lambda>i. float32 (of_nat (i + 1))) [0..<count]"
  by (simp add: column_atoms_array)

lemma atom_type_column:
  "column 1 (atoms_array count rand) = map (atom_type count) [0..<count]"
  by (simp add: column_atoms_array)

lemma mol_type_column:
  "column 2 (atoms_array count rand) = map (atom_type count) [0..<count]"
  by (simp add: column_atoms_array)

lemma atom_type_bands:
  assumes "200 \<le> count"
  shows "map (atom_type count) [0..<count] =
    replicate 100 2 @ replicate (count - 200) 1 @ replicate 100 3"
proof (rule nth_equalityI)
  show "length (map (atom_type count) [0..<count]) =
    length (replicate 100 (2::rat) @ replicate (count - 200) 1 @ replicate 100 3)"
    using assms by simp
next
  fix i
  assume "i < length (map (atom_type count) [0..<count])"
  then have i: "i < count"
    by simp
  show "map (atom_type count) [0..<count] ! i =
    (replicate 100 2 @ replicate (count - 200) 1 @ replicate 100 3) ! i"
    using i assms by (auto simp add: atom_type_def slice_bound_def nth_append)
qed

lemma atom_type_overlap:
  assumes "count < 200"
  shows "map (atom_type count) [0..<count] =
    replicate (count - min 100 count) 2 @ replicate (min 100 count) 3"
proof (rule nth_equalityI)
  show "length (map (atom_type count) [0..<count]) =
    length (replicate (count - min 100 count) (2::rat) @ replicate (min 100 count) 3)"
    by simp
next
  fix i
  assume "i < length (map (atom_type count) [0..<count])"
  then have i: "i < count"
    by simp
  show "map (atom_type count) [0..<count] ! i =
    (replicate (count - min 100 count) 2 @ replicate (min 100 count) 3) ! i"
    using i assms by (auto simp add: atom_type_def slice_bound_def nth_append min_def)
qed

lemma shape_generate_atoms: "shape (generate_atoms count rand) = (count, 6)"
  by (simp add: generate_atoms_def DataFrame_def shape_def eval_nat_numeral length_column
      length_atoms_array)

lemma atom_id_lookup:
  "map_of (generate_atoms count rand) ''atom-id'' =
    Some (map (\<lambda>i. float32 (of_nat i)) [1..<Suc count])"
proof -
  have "map (\<lambda>i. float32 (of_nat (i + 1))) [0..<count] =
      map (\<lambda>i. float32 (of_nat i)) (map Suc [0..<count])"
    by simp
  also have "map Suc [0..<count] = [1..<Suc count]"
    by (simp only: map_Suc_upt One_nat_def)
  finally show ?thesis
    by (simp only: generate_atoms_lookup atom_id_column)
qed

lemma atom_id_differs:
  assumes "i < count" "float32 (of_nat (Suc i)) \<noteq> of_nat (Suc i)"
  shows "map_of (generate_atoms count rand) ''atom-id'' \<noteq> Some (map of_nat [1..<Suc count])"
proof
  assume "map_of (generate_atoms count rand) ''atom-id'' = Some (map of_nat [1..<Suc count])"
  then have "map (\<lambda>i. float32 (of_nat i)) [1..<Suc count] = map of_nat [1..<Suc count]"
    by (simp only: atom_id_lookup option.inject)
  then have "map (\<lambda>i. float32 (of_nat i)) [1..<Suc count] ! i = map of_nat [1..<Suc count] ! i"
    by (simp only:)
  then have "float32 (of_nat (Suc i)) = of_nat (Suc i)"
    using assms(1) by (simp del: upt_Suc of_nat_Suc)
  with assms(2) show False
    by simp
qed

lemma coordinate_columns:
  "column 3 (atoms_array count rand) =
     map (\<lambda>i. square_tenth (scale (float32 (rand i 3)))) [0..<count]"
  "column 4 (atoms_array count rand) =
     map (\<lambda>i. square_tenth (scale (float32 (rand i 4)))) [0..<count]"
  "column 5 (atoms_array count rand) =
     map (\<lambda>i. square_tenth (scale (float32 (rand i 5)))) [0..<count]"
  by (simp_all add: column_atoms_array)

lemma coordinate_lookup:
  assumes "(name, j) \<in> {(''x-coor'', 3), (''y-coor'', 4), (''z-coor'', 5)}"
  shows "map_of (generate_atoms count rand) name =
    Some (map (\<lambda>i. square_tenth (scale (float32 (rand i j)))) [0..<count])"
  using assms by (auto simp only: generate_atoms_lookup coordinate_columns)

section \<open>Bounds of the coordinate transform\<close>

lemma float32_consts:
  "float32 60 = 60" "float32 (- 60) = - 60" "float32 120 = 120"
  "float32 3600 = 3600" "float32 360 = 360"
  by code_simp+

lemma cast_bounds:
  assumes "0 \<le> u" "u < 1"
  shows "0 \<le> float32 u" "float32 u \<le> 1"
proof -
  show "0 \<le> float32 u"
    using assms(1) by (rule float32_nonneg)
  have "float32 u \<le> float32 1"
    using assms(2) by (intro float32_mono) simp
  then show "float32 u \<le> 1"
    by (simp only: float32_1)
qed

lemma scale_bounds:
  assumes "0 \<le> v" "v \<le> 1"
  shows "- 60 \<le> scale v" "scale v \<le> 60"
proof -
  have "float32 0 \<le> float32 (v * 120)" "float32 (v * 120) \<le> float32 120"
    using assms by (intro float32_mono; simp)+
  then have b: "0 \<le> float32 (v * 120)" "float32 (v * 120) \<le> 120"
    by (simp_all only: float32_0 float32_consts)
  have "float32 (- 60) \<le> float32 (float32 (v * 120) - 60)"
    "float32 (float32 (v * 120) - 60) \<le> float32 60"
    using b by (intro float32_mono; simp)+
  then show "- 60 \<le> scale v" "scale v \<le> 60"
    by (simp_all only: scale_def float32_consts)
qed

lemma square_tenth_nonneg: "0 \<le> square_tenth t"
  unfolding square_tenth_def by (intro float32_nonneg divide_nonneg_nonneg) simp_all

lemma square_tenth_le:
  assumes "- 60 \<le> t" "t \<le> 60"
  shows "square_tenth t \<le> 360"
proof -
  have "\<bar>t\<bar> \<le> \<bar>60\<bar>"
    using assms by simp
  then have "t ^ 2 \<le> 60 ^ 2"
    by (simp only: abs_le_square_iff)
  then have "float32 (t ^ 2) \<le> float32 3600"
    by (intro float32_mono) simp
  then have "float32 (t ^ 2) / 10 \<le> 360"
    by (simp add: float32_consts)
  then have "float32 (float32 (t ^ 2) / 10) \<le> float32 360"
    by (rule float32_mono)
  then show ?thesis
    by (simp only: square_tenth_def float32_consts)
qed

lemma coordinate_range:
  assumes "0 \<le> u" "u < 1"
  shows "0 \<le> square_tenth (scale (float32 u))" "square_tenth (scale (float32 u)) \<le> 360"
proof -
  show "0 \<le> square_tenth (scale (float32 u))"
    by (rule square_tenth_nonneg)
  have "0 \<le> float32 u" "float32 u \<le> 1"
    using assms by (rule cast_bounds)+
  then have "- 60 \<le> scale (float32 u)" "scale (float32 u) \<le> 60"
    by (rule scale_bounds)+
  then show "square_tenth (scale (float32 u)) \<le> 360"
    by (rule square_tenth_le)
qed

lemma exact_preimage:
  assumes "0 \<le> x" "x \<le> 360"
  shows "\<exists>w::real. 0 \<le> w \<and> w < 1 \<and> of_rat x = (w * 120 - 60) ^ 2 / 10"
proof -
  define y :: real where "y = of_rat x"
  have y: "0 \<le> y" "y \<le> 360"
    using assms by (simp_all add: y_def of_rat_less_eq [of x 360, simplified])
  define w where "w = (60 - sqrt (10 * y)) / 120"
  have "sqrt (10 * y) \<le> sqrt 3600"
    using y by (intro real_sqrt_le_mono) simp
  also have "sqrt 3600 = 60"
    using real_sqrt_abs [of 60] by simp
  finally have s: "sqrt (10 * y) \<le> 60" .
  have s0: "0 \<le> sqrt (10 * y)"
    using y by simp
  have "60 - sqrt (10 * y) \<le> 60" "0 \<le> 60 - sqrt (10 * y)"
    using s s0 by linarith+
  then have "0 \<le> (60 - sqrt (10 * y)) / 120" "(60 - sqrt (10 * y)) / 120 \<le> 60 / 120"
    by (intro divide_nonneg_pos divide_right_mono; simp)+
  then have "0 \<le> w" "w < 1"
    unfolding w_def by linarith+
  moreover have "(w * 120 - 60) ^ 2 / 10 = y"
  proof -
    have "w * 120 - 60 = - sqrt (10 * y)"
      by (simp add: w_def field_simps)
    then have "(w * 120 - 60) ^ 2 = 10 * y"
      using y by simp
    then show ?thesis
      by simp
  qed
  ultimately show ?thesis
    unfolding y_def by metis
qed

section \<open>Shape and identifiers\<close>

text \<open>
  C1, as stated, at 16777217 rows. The table is a \<open>float32\<close> array, and 16777217 is
  \<open>2 ^ 24 + 1\<close>, which binary32 cannot hold: the identifier written into the last row
  is rounded to 16777216, so the \<open>atom-id\<close> column is not the sequence from 1 to the
  row count.
\<close>

theorem atom_id_rounding_counterexample:
  "(200::nat) \<le> 16777217 \<and>
   map_of (generate_atoms 16777217 zero_draws) ''atom-id'' \<noteq>
     Some (map of_nat [1..<Suc 16777217])"
proof
  show "(200::nat) \<le> 16777217"
    by simp
  have r: "float32 16777217 = 16777216"
    by code_simp
  have "float32 (of_nat (Suc 16777216)) \<noteq> of_nat (Suc 16777216)"
    by (simp add: r)
  then show "map_of (generate_atoms 16777217 zero_draws) ''atom-id'' \<noteq>
     Some (map of_nat [1..<Suc 16777217])"
    by (intro atom_id_differs [where i = 16777216]) simp_all
qed

text \<open>
  C1, amended. For every count of at least 200 the table has exactly \<open>count\<close> rows and
  6 columns; when the count is at most 16777216 (\<open>2 ^ 24\<close>) its \<open>atom-id\<close> column is
  the sequence 1, 2, ..., count in row order.
\<close>

theorem generate_atoms_shape_and_ids:
  assumes "200 \<le> count"
  shows "shape (generate_atoms count rand) = (count, 6) \<and>
    (count \<le> 16777216 \<longrightarrow>
      map_of (generate_atoms count rand) ''atom-id'' = Some (map of_nat [1..<Suc count]))"
proof (intro conjI impI)
  show "shape (generate_atoms count rand) = (count, 6)"
    by (rule shape_generate_atoms)
next
  assume c: "count \<le> 16777216"
  have "map (\<lambda>i. float32 (of_nat i)) [1..<Suc count] = map of_nat [1..<Suc count]"
  proof (rule map_cong [OF refl])
    fix i
    assume "i \<in> set [1..<Suc count]"
    then have "i < Suc count"
      by (simp del: upt_Suc)
    then have "i \<le> 2 ^ 24"
      using c by simp
    then show "float32 (of_nat i) = of_nat i"
      by (rule float32_of_nat)
  qed
  then show "map_of (generate_atoms count rand) ''atom-id'' = Some (map of_nat [1..<Suc count])"
    by (simp only: atom_id_lookup)
qed

theorem generate_atoms_shape_and_ids_witness:
  "(200::nat) \<le> 200 \<and> (200::nat) \<le> 16777216 \<and>
   shape (generate_atoms 200 zero_draws) = (200, 6) \<and>
   map_of (generate_atoms 200 zero_draws) ''atom-id'' = Some (map of_nat [1..<Suc 200])"
proof -
  have a: "(200::nat) \<le> 200" and b: "(200::nat) \<le> 16777216"
    by simp_all
  from generate_atoms_shape_and_ids [OF a, of zero_draws] a b show ?thesis
    by blast
qed

section \<open>The placeholder tables\<close>

lemma bonds_rows: "bonds count = map (\<lambda>i. [int i + 1, 1, 1, 1]) [0..<count]"
  by (rule nth_equalityI)
    (simp_all add: bonds_def ones_def arange_def set_column_def eval_nat_numeral)

lemma angles_rows: "angles count = map (\<lambda>i. [int i + 1, 1, 1, 1, 1]) [0..<count]"
  by (rule nth_equalityI)
    (simp_all add: angles_def ones_def arange_def set_column_def eval_nat_numeral)

lemma dihedrals_rows: "dihedrals count = replicate count [1, 1, 1, 1, 1, 1]"
  by (simp add: dihedrals_def ones_def eval_nat_numeral)

text \<open>
  C2 asks of each of the three placeholder tables that its first column be the sequence
  1, 2, ..., count and every other cell be 1. The cell at two rows: \<open>bonds\<close> and
  \<open>angles\<close> are so, \<open>dihedrals\<close> keeps 1 in its first column in every row, since
  the cell never writes its identifiers.
\<close>

theorem dihedrals_identifiers_unset:
  "bonds 2 = [[1, 1, 1, 1], [2, 1, 1, 1]] \<and>
   angles 2 = [[1, 1, 1, 1, 1], [2, 1, 1, 1, 1]] \<and>
   dihedrals 2 = [[1, 1, 1, 1, 1, 1], [1, 1, 1, 1, 1, 1]]"
  by code_simp

section \<open>The category columns\<close>

text \<open>
  C3. For every count of at least 200, the \<open>atom-type\<close> column of the table holds 2 in
  each of the first 100 rows, 3 in each of the last 100 rows and 1 in every row between.
\<close>

theorem atom_type_three_bands:
  assumes "200 \<le> count"
  shows "map_of (generate_atoms count rand) ''atom-type'' =
    Some (replicate 100 2 @ replicate (count - 200) 1 @ replicate 100 3)"
  using assms by (simp only: generate_atoms_lookup atom_type_column atom_type_bands)

theorem atom_type_three_bands_witness:
  "(200::nat) \<le> 201 \<and> map_of (generate_atoms 201 zero_draws) ''atom-type'' =
    Some (replicate 100 2 @ [1] @ replicate 100 3)"
  using atom_type_three_bands [of 201 zero_draws] by simp

text \<open>
  C8. In every row of the table the \<open>mol-type\<close> column holds the value of the
  \<open>atom-type\<close> column: the two columns exist, have one entry per row and are equal.
\<close>

theorem mol_type_mirrors_atom_type:
  "\<exists>ts. map_of (generate_atoms count rand) ''atom-type'' = Some ts \<and>
     map_of (generate_atoms count rand) ''mol-type'' = Some ts \<and> length ts = count"
  by (simp only: generate_atoms_lookup atom_type_column mol_type_column) simp

text \<open>
  C10. Below 200 rows the three writes run in sequence (all rows 1, then the first
  \<open>min 100 count\<close> rows 2, then the last \<open>min 100 count\<close> rows 3), so the later write
  wins where the bands overlap: the last \<open>min 100 count\<close> rows hold 3 and the rows before
  them hold 2; with at most 100 rows every row holds 3.
\<close>

theorem atom_type_overlapping_bands:
  assumes "count < 200"
  shows "map_of (generate_atoms count rand) ''atom-type'' =
      Some (replicate (count - min 100 count) 2 @ replicate (min 100 count) 3) \<and>
    (count \<le> 100 \<longrightarrow>
      map_of (generate_atoms count rand) ''atom-type'' = Some (replicate count 3))"
  using assms by (simp only: generate_atoms_lookup atom_type_column atom_type_overlap) simp

theorem atom_type_overlapping_bands_witness:
  "(150::nat) < 200 \<and> (70::nat) < 200 \<and> (70::nat) \<le> 100 \<and>
   map_of (generate_atoms 150 zero_draws) ''atom-type'' =
     Some (replicate 50 2 @ replicate 100 3) \<and>
   map_of (generate_atoms 70 zero_draws) ''atom-type'' = Some (replicate 70 3)"
  using atom_type_overlapping_bands [of 150 zero_draws]
    atom_type_overlapping_bands [of 70 zero_draws]
  by simp

section \<open>The coordinate columns\<close>

text \<open>
  C6. Each value of the three coordinate columns is the transform of a draw: for a row
  \<open>i\<close> below the count, the value in row \<open>i\<close> of the column is computed from the draw
  \<open>v\<close> of the generator for that cell, taken from the half-open interval from 0 to 1, by
  scaling (\<open>v*120-60\<close>) and then squaring and dividing by ten (\<open>value^2/10\<close>). The
  array is single precision, so the draw and each result are rounded to \<open>float32\<close>.
  Read in exact arithmetic the statement holds as well: the value is
  \<open>(w*120-60)^2/10\<close> for some real \<open>w\<close> of that interval.
\<close>

theorem coordinate_transform:
  assumes "\<forall>i j. 0 \<le> rand i j \<and> rand i j < 1"
    and "(name, j) \<in> {(''x-coor'', 3), (''y-coor'', 4), (''z-coor'', 5)}"
    and "i < count"
  shows "\<exists>xs v. map_of (generate_atoms count rand) name = Some xs \<and> length xs = count \<and>
    v = rand i j \<and> 0 \<le> v \<and> v < 1 \<and>
    xs ! i = float32 (float32 ((float32 (float32 (float32 v * 120) - 60)) ^ 2) / 10) \<and>
    (\<exists>w::real. 0 \<le> w \<and> w < 1 \<and> of_rat (xs ! i) = (w * 120 - 60) ^ 2 / 10)"
proof -
  let ?xs = "map (\<lambda>i. square_tenth (scale (float32 (rand i j)))) [0..<count]"
  have v: "0 \<le> rand i j" "rand i j < 1"
    using assms(1) by simp_all
  have x: "?xs ! i = square_tenth (scale (float32 (rand i j)))"
    using assms(3) by simp
  have "\<exists>w::real. 0 \<le> w \<and> w < 1 \<and> of_rat (?xs ! i) = (w * 120 - 60) ^ 2 / 10"
    unfolding x using coordinate_range [OF v] by (rule exact_preimage)
  moreover have "?xs ! i =
      float32 (float32 ((float32 (float32 (float32 (rand i j) * 120) - 60)) ^ 2) / 10)"
    unfolding x by (simp only: square_tenth_def scale_def)
  moreover have "map_of (generate_atoms count rand) name = Some ?xs"
    using assms(2) by (rule coordinate_lookup)
  moreover have "length ?xs = count"
    by simp
  ultimately show ?thesis
    using v by blast
qed

theorem coordinate_transform_witness:
  "(\<forall>i j. 0 \<le> tenth_draws i j \<and> tenth_draws i j < 1) \<and>
   (\<exists>xs. map_of (generate_atoms 2 tenth_draws) ''y-coor'' = Some xs \<and> length xs = 2 \<and>
      xs ! 1 = 7549747 / 32768)"
proof -
  have h: "\<forall>i j. 0 \<le> tenth_draws i j \<and> tenth_draws i j < 1"
    by (simp add: tenth_draws_def)
  have e: "float32 (float32 ((float32 (float32 (float32 (1 / 10) * 120) - 60)) ^ 2) / 10)
     = 7549747 / 32768"
    by code_simp
  have m: "(''y-coor'', 4::nat) \<in> {(''x-coor'', 3), (''y-coor'', 4), (''z-coor'', 5)}"
    and lt: "(1::nat) < 2"
    by simp_all
  from coordinate_transform [OF h m lt] obtain xs v
    where x: "map_of (generate_atoms 2 tenth_draws) ''y-coor'' = Some xs" "length xs = 2"
      "v = tenth_draws 1 4"
      "xs ! 1 = float32 (float32 ((float32 (float32 (float32 v * 120) - 60)) ^ 2) / 10)"
    by blast
  have "v = 1 / 10"
    using x(3) by (simp add: tenth_draws_def)
  then have "xs ! 1 = 7549747 / 32768"
    using x(4) e by (simp only:)
  with h x(1,2) show ?thesis
    by blast
qed

text \<open>
  C7. Every value in the three coordinate columns of the table is at least 0, whatever
  the draws are.
\<close>

theorem coordinates_nonneg:
  assumes "name \<in> {''x-coor'', ''y-coor'', ''z-coor''}"
  shows "\<exists>xs. map_of (generate_atoms count rand) name = Some xs \<and> length xs = count \<and>
    (\<forall>x\<in>set xs. 0 \<le> x)"
proof -
  from assms obtain j :: nat
    where "(name, j) \<in> {(''x-coor'', 3), (''y-coor'', 4), (''z-coor'', 5)}"
    by auto
  then show ?thesis
    by (simp add: coordinate_lookup square_tenth_nonneg)
qed

theorem coordinates_nonneg_witness:
  "''z-coor'' \<in> {''x-coor'', ''y-coor'', ''z-coor''} \<and>
   (\<exists>xs. map_of (generate_atoms 2 tenth_draws) ''z-coor'' = Some xs \<and> length xs = 2 \<and>
     (\<forall>x\<in>set xs. 0 \<le> x))"
  using coordinates_nonneg [of "''z-coor''" 2 tenth_draws] by simp

text \<open>
  C9, as stated, at one row whose draws are all 0. A draw of 0 lies in the generator's
  interval; it is scaled to \<open>- 60\<close> and squared and divided to 360, so the value is not
  strictly below 360.
\<close>

theorem coordinate_360_counterexample:
  "0 \<le> zero_draws 0 3 \<and> zero_draws 0 3 < 1 \<and>
   map_of (generate_atoms 1 zero_draws) ''x-coor'' = Some [360]"
proof -
  have "square_tenth (scale (float32 0)) = 360"
    by code_simp
  then show ?thesis
    by (simp add: coordinate_lookup [of "''x-coor''" 3] zero_draws_def)
qed

text \<open>
  C9, amended. With draws from the half-open interval from 0 to 1, every value in the
  three coordinate columns lies between 0 and 360, both included.
\<close>

theorem coordinates_in_closed_range:
  assumes "\<forall>i j. 0 \<le> rand i j \<and> rand i j < 1"
    and "name \<in> {''x-coor'', ''y-coor'', ''z-coor''}"
  shows "\<exists>xs. map_of (generate_atoms count rand) name = Some xs \<and> length xs = count \<and>
    (\<forall>x\<in>set xs. 0 \<le> x \<and> x \<le> 360)"
proof -
  from assms(2) obtain j :: nat
    where j: "(name, j) \<in> {(''x-coor'', 3), (''y-coor'', 4), (''z-coor'', 5)}"
    by auto
  have "0 \<le> square_tenth (scale (float32 (rand i j))) \<and>
      square_tenth (scale (float32 (rand i j))) \<le> 360" for i
    using assms(1) by (simp add: coordinate_range)
  then show ?thesis
    by (simp add: coordinate_lookup [OF j])
qed

theorem coordinates_in_closed_range_witness:
  "(\<forall>i j. 0 \<le> zero_draws i j \<and> zero_draws i j < 1) \<and>
   ''x-coor'' \<in> {''x-coor'', ''y-coor'', ''z-coor''} \<and>
   (\<exists>xs. map_of (generate_atoms 1 zero_draws) ''x-coor'' = Some xs \<and> length xs = 1 \<and>
     (\<forall>x\<in>set xs. 0 \<le> x \<and> x \<le> 360))"
  using coordinates_in_closed_range [of zero_draws "''x-coor''" 1]
  by (simp add: zero_draws_def)

section \<open>The aggregate queries on a table\<close>

lemma select_Inr:
  assumes "\<forall>n\<in>set names. \<exists>c. map_of df n = Some c"
  shows "select df names = Inr (map (\<lambda>n. the (map_of df n)) names)"
  using assms by (induction names) auto

lemma select_Inl:
  assumes "n \<in> set names" "map_of df n = None"
  shows "\<exists>m. select df names = Inl (ColumnNotFound m) \<and> m \<in> set names \<and> map_of df m = None"
  using assms
proof (induction names)
  case Nil
  then show ?case
    by simp
next
  case (Cons a names)
  show ?case
  proof (cases "map_of df a")
    case None
    then show ?thesis
      by simp
  next
    case (Some c)
    with Cons.prems have "n \<in> set names"
      by auto
    from Cons.IH [OF this Cons.prems(2)] Some show ?thesis
      by auto
  qed
qed

lemma fold_max_Max: "fold max xs (x::'a::linorder) = Max (set (x # xs))"
  by (simp only: Max.set_eq_fold)

lemma fold_min_Min: "fold min xs (x::'a::linorder) = Min (set (x # xs))"
  by (simp only: Min.set_eq_fold)

lemma maximum_bound:
  assumes "x \<in> set c"
  shows "\<exists>hi. maximum c = Some hi \<and> hi \<in> set c \<and> x \<le> hi"
proof (cases c)
  case Nil
  with assms show ?thesis
    by simp
next
  case (Cons a as)
  have "Max (set (a # as)) \<in> set (a # as)"
    by (intro Max_in) simp_all
  moreover have "x \<le> Max (set (a # as))"
    using assms Cons by (intro Max_ge) simp_all
  ultimately show ?thesis
    using Cons by (simp only: maximum.simps fold_max_Max) simp
qed

lemma minimum_bound:
  assumes "x \<in> set c"
  shows "\<exists>lo. minimum c = Some lo \<and> lo \<in> set c \<and> lo \<le> x"
proof (cases c)
  case Nil
  with assms show ?thesis
    by simp
next
  case (Cons a as)
  have "Min (set (a # as)) \<in> set (a # as)"
    by (intro Min_in) simp_all
  moreover have "Min (set (a # as)) \<le> x"
    using assms Cons by (intro Min_le) simp_all
  ultimately show ?thesis
    using Cons by (simp only: minimum.simps fold_min_Min) simp
qed

text \<open>
  C4. For every table and every list of column names that all exist in it,
  \<open>column_max\<close> and \<open>column_min\<close> each return one value per requested column, in the
  order requested, and every entry of a requested column lies between the returned
  minimum and the returned maximum of that column, which are entries of the column.
\<close>

theorem column_max_min_bounds:
  assumes "\<forall>n\<in>set names. \<exists>c. map_of df n = Some c"
  shows "\<exists>mx mn. column_max df names = Inr mx \<and> column_min df names = Inr mn \<and>
    length mx = length names \<and> length mn = length names \<and>
    (\<forall>k<length names. \<forall>c. map_of df (names ! k) = Some c \<longrightarrow>
      (\<forall>x\<in>set c. \<exists>hi lo. mx ! k = Some hi \<and> mn ! k = Some lo \<and>
         hi \<in> set c \<and> lo \<in> set c \<and> lo \<le> x \<and> x \<le> hi))"
proof -
  let ?cs = "map (\<lambda>n. the (map_of df n)) names"
  have mx: "column_max df names = Inr (map maximum ?cs)"
    and mn: "column_min df names = Inr (map minimum ?cs)"
    by (simp_all add: column_max_def column_min_def select_Inr [OF assms])
  have "\<exists>hi lo. map maximum ?cs ! k = Some hi \<and> map minimum ?cs ! k = Some lo \<and>
      hi \<in> set c \<and> lo \<in> set c \<and> lo \<le> x \<and> x \<le> hi"
    if "k < length names" "map_of df (names ! k) = Some c" "x \<in> set c" for k c x
    using that maximum_bound [OF that(3)] minimum_bound [OF that(3)] by auto
  then show ?thesis
    unfolding mx mn by (intro exI conjI refl) auto
qed

theorem column_max_min_bounds_witness:
  "(\<exists>c. map_of sample_frame ''b'' = Some c) \<and> (\<exists>c. map_of sample_frame ''a'' = Some c) \<and>
   column_max sample_frame [''b'', ''a''] = Inr [Some 9, Some 3] \<and>
   column_min sample_frame [''b'', ''a''] = Inr [Some 4, Some 1]"
proof -
  have h: "\<forall>n\<in>set [''b'', ''a'']. \<exists>c. map_of sample_frame n = Some c"
    by (simp add: sample_frame_def)
  from column_max_min_bounds [OF h] obtain mx mn
    where "column_max sample_frame [''b'', ''a''] = Inr mx"
      "column_min sample_frame [''b'', ''a''] = Inr mn"
    by blast
  moreover have "column_max sample_frame [''b'', ''a''] = Inr [Some 9, Some 3]"
    "column_min sample_frame [''b'', ''a''] = Inr [Some 4, Some 1]"
    by (simp_all add: column_max_def column_min_def sample_frame_def)
  ultimately show ?thesis
    using h by simp
qed

text \<open>
  C5. When the list of names passed to \<open>column_max\<close> contains a name that the table
  does not have, the query fails with a Column-Not-Found error naming a requested
  column that is absent; the result is the error alone, with no value for any column.
\<close>

theorem column_max_missing_column:
  assumes "n \<in> set names" "map_of df n = None"
  shows "\<exists>m. column_max df names = Inl (ColumnNotFound m) \<and> m \<in> set names \<and>
    map_of df m = None"
  using select_Inl [OF assms] by (auto simp add: column_max_def)

theorem column_max_missing_column_witness:
  "''c'' \<in> set [''b'', ''c'', ''a''] \<and> map_of sample_frame ''c'' = None \<and>
   column_max sample_frame [''b'', ''c'', ''a''] = Inl (ColumnNotFound ''c'')"
proof -
  have h: "''c'' \<in> set [''b'', ''c'', ''a'']" "map_of sample_frame ''c'' = None"
    by (simp_all add: sample_frame_def)
  from column_max_missing_column [OF h] h show ?thesis
    by (simp add: column_max_def sample_frame_def)
qed

end
